theory Spec2Isabelle
  imports Complex_Main "HOL-Library.Char_ord" "HOL-Library.List_Lexorder" "HOL-Library.Multiset"
begin

section \<open>The discovery client of Project Prometheus\<close>

text \<open>
  The development follows the client component \<^verbatim>\<open>DiscoverPage\<close>: its React state, the
  handlers \<^verbatim>\<open>handleDiscovery\<close>, \<^verbatim>\<open>handleStreamData\<close>, \<^verbatim>\<open>processStream\<close> and
  \<^verbatim>\<open>handleRetry\<close>, and the event stream they decode. The encoder of the stream and
  the dominance engine run on the server, whose code is not among the sources; they are
  modelled from their specification.
\<close>

subsection \<open>JavaScript values\<close>

text \<open>
  \<^verbatim>\<open>JSON.parse\<close> returns a value of type \<^verbatim>\<open>any\<close>, and the handlers test its fields for
  truthiness, compare them with \<^verbatim>\<open>===\<close> and put them into template strings. A number
  is represented by its canonical rendering (\<^verbatim>\<open>Number.prototype.toString\<close>), which
  identifies a double up to the sign of zero; the client does no arithmetic on event
  payloads. An object is the list of its own properties, each name once, as
  \<^verbatim>\<open>JSON.parse\<close> builds it.
\<close>

datatype jsval =
    JUndefined
  | JNull
  | JBool bool
  | JNumber string
  | JString string
  | JArray "jsval list"
  | JObject "(string \<times> jsval) list"

datatype js_error = SyntaxError | TypeError | ReadFailure

text \<open>The truthiness test of \<^verbatim>\<open>if (x)\<close>, \<^verbatim>\<open>!x\<close> and \<^verbatim>\<open>x || y\<close>.\<close>

fun truthy :: "jsval \<Rightarrow> bool" where
  "truthy JUndefined = False"
| "truthy JNull = False"
| "truthy (JBool b) = b"
| "truthy (JNumber n) = (n \<noteq> ''0'' \<and> n \<noteq> ''NaN'')"
| "truthy (JString s) = (s \<noteq> [])"
| "truthy (JArray xs) = True"
| "truthy (JObject kvs) = True"

text \<open>
  Reading a property of \<^verbatim>\<open>null\<close> or \<^verbatim>\<open>undefined\<close> throws a \<^verbatim>\<open>TypeError\<close>; on every
  other value the read succeeds. The properties the client reads (\<^verbatim>\<open>agent\<close>,
  \<^verbatim>\<open>status\<close>, \<^verbatim>\<open>log\<close>, \<^verbatim>\<open>pareto_front\<close>, \<^verbatim>\<open>final_candidate\<close>) are defined on no
  built-in prototype, so a read gives the object's own property, and \<^verbatim>\<open>undefined\<close>
  when there is none or when the value is not an object.
\<close>

fun nullish :: "jsval \<Rightarrow> bool" where
  "nullish JUndefined = True"
| "nullish JNull = True"
| "nullish v = False"

fun get :: "jsval \<Rightarrow> string \<Rightarrow> jsval" where
  "get (JObject kvs) k = (case map_of kvs k of None \<Rightarrow> JUndefined | Some v \<Rightarrow> v)"
| "get v k = JUndefined"

text \<open>Whether a value is an object with a property of that name of its own.\<close>

fun hasField :: "jsval \<Rightarrow> string \<Rightarrow> bool" where
  "hasField (JObject kvs) k = (map_of kvs k \<noteq> None)"
| "hasField v k = False"

fun join :: "string \<Rightarrow> string list \<Rightarrow> string" where
  "join sep [] = []"
| "join sep [s] = s"
| "join sep (s # t # ss) = s @ sep @ join sep (t # ss)"

text \<open>
  The string conversion of a template literal \<^verbatim>\<open>`${x}`\<close>. On an object it calls the
  method \<^verbatim>\<open>toString\<close>: for a parsed object that is the one of \<^verbatim>\<open>Object.prototype\<close>,
  unless the object has a property of that name of its own, which is no function, and
  then the conversion throws a \<^verbatim>\<open>TypeError\<close> (\<open>None\<close>). On an array it joins the
  conversions of the elements, \<^verbatim>\<open>null\<close> giving the empty string.
\<close>

fun toString :: "jsval \<Rightarrow> string option" where
  "toString JUndefined = Some ''undefined''"
| "toString JNull = Some ''null''"
| "toString (JBool b) = Some (if b then ''true'' else ''false'')"
| "toString (JNumber n) = Some n"
| "toString (JString s) = Some s"
| "toString (JArray xs) =
     map_option (join '','') (those (map (\<lambda>x. if nullish x then Some [] else toString x) xs))"
| "toString (JObject kvs) =
     (if map_of kvs ''toString'' = None then Some ''[object Object]'' else None)"

text \<open>Strings: \<^verbatim>\<open>s.split(c)\<close> for a one-character separator, \<^verbatim>\<open>startsWith\<close>, \<^verbatim>\<open>slice\<close>.\<close>

fun split :: "char \<Rightarrow> string \<Rightarrow> string list" where
  "split c [] = [[]]"
| "split c (x # xs) =
     (if x = c then [] # split c xs
      else (case split c xs of [] \<Rightarrow> [[x]] | p # ps \<Rightarrow> (x # p) # ps))"

definition startsWith :: "string \<Rightarrow> string \<Rightarrow> bool" where
  "startsWith s p = (take (length p) s = p)"

definition slice :: "nat \<Rightarrow> string \<Rightarrow> string" where
  "slice n s = drop n s"

definition LF :: char where
  "LF = CHR 0x0A"

text \<open>The decimal rendering of a natural number, as a template literal prints it.\<close>

definition digitChar :: "nat \<Rightarrow> char" where
  "digitChar d = ''0123456789'' ! (d mod 10)"

fun decimal :: "nat \<Rightarrow> string" where
  "decimal n = (if 10 \<le> n then decimal (n div 10) @ [digitChar (n mod 10)] else [digitChar n])"

declare decimal.simps [simp del]

subsection \<open>Client state\<close>

datatype icon = IconBrain | IconBeaker | IconZap | IconClipboardList | IconShieldCheck

text \<open>
  The TypeScript type of \<^verbatim>\<open>status\<close> is a union of five literals, but the value stored
  is \<^verbatim>\<open>data.status\<close> of an event of type \<^verbatim>\<open>any\<close>: whatever the event carries.
\<close>

record AgentStatus =
  icon :: icon
  name :: string
  status :: jsval
  color :: string

record LogEntry =
  time :: string
  message :: string

record request =
  url :: string
  goal :: string
  req_openaiApiKey :: string
  req_googleApiKey :: string
  req_mpApiKey :: string

text \<open>
  The state variables of the component, followed by what the handlers do to the
  outside: the alerts shown, the requests issued with \<^verbatim>\<open>fetch\<close>, the lines written with
  \<^verbatim>\<open>console.error\<close>, the arguments of the calls of \<^verbatim>\<open>handleStreamData\<close> (a trace: the
  source has no such variable), and the number of readings of the clock so far.
\<close>

record world =
  prompt :: string
  isRunning :: bool
  logs :: "LogEntry list"
  chartData :: jsval
  finalCandidate :: jsval
  objectives :: "string list"
  openaiApiKey :: string
  googleApiKey :: string
  mpApiKey :: string
  retryCount :: nat
  hasError :: bool
  agents :: "AgentStatus list"
  alerts :: "string list"
  requests :: "request list"
  console :: "(string \<times> js_error) list"
  delivered :: "jsval list"
  ticks :: nat

text \<open>
  The platform: \<^verbatim>\<open>JSON.parse\<close> (\<open>None\<close> when it throws a \<^verbatim>\<open>SyntaxError\<close>), the clock
  (the rendering \<^verbatim>\<open>new Date().toLocaleTimeString()\<close> of the \<open>n\<close>-th reading) and the
  environment variable with the base address of the server (\<open>None\<close> when it is not set).
\<close>

record platform =
  JSON_parse :: "string \<Rightarrow> jsval option"
  toLocaleTimeString :: "nat \<Rightarrow> string"
  NEXT_PUBLIC_API_BASE :: "string option"

definition initialAgents :: "AgentStatus list" where
  "initialAgents =
     [\<lparr>icon = IconBrain, name = ''Epimetheus'', status = JString ''idle'', color = ''blue''\<rparr>,
      \<lparr>icon = IconBeaker, name = ''Athena'', status = JString ''idle'', color = ''purple''\<rparr>,
      \<lparr>icon = IconZap, name = ''Hermes'', status = JString ''idle'', color = ''yellow''\<rparr>,
      \<lparr>icon = IconClipboardList, name = ''Hephaestus'', status = JString ''idle'', color = ''green''\<rparr>,
      \<lparr>icon = IconShieldCheck, name = ''Cassandra'', status = JString ''idle'', color = ''red''\<rparr>]"

definition addLog :: "platform \<Rightarrow> string \<Rightarrow> world \<Rightarrow> world" where
  "addLog env msg w =
     w\<lparr>logs := logs w @ [\<lparr>time = toLocaleTimeString env (ticks w), message = msg\<rparr>],
       ticks := Suc (ticks w)\<rparr>"

subsection \<open>The stream handlers\<close>

text \<open>
  \<^verbatim>\<open>handleStreamData\<close>. The first statement reads \<^verbatim>\<open>data.agent\<close>, which throws when
  \<^verbatim>\<open>data\<close> is \<^verbatim>\<open>null\<close>, before any effect. The two template literals throw when a field
  has no string conversion; the state changes made before stay. The result is the state
  at the end, or the error with the state at the throw.
\<close>

definition setAgents :: "jsval \<Rightarrow> world \<Rightarrow> world" where
  "setAgents data w =
     w\<lparr>agents := map (\<lambda>a. if JString (name a) = get data ''agent''
                            then a\<lparr>status := get data ''status''\<rparr> else a) (agents w)\<rparr>"

definition agentLine :: "jsval \<Rightarrow> string option" where
  "agentLine data =
     (case toString (get data ''agent'') of
        None \<Rightarrow> None
      | Some a \<Rightarrow>
          (case toString (get data ''log'') of
             None \<Rightarrow> None
           | Some l \<Rightarrow> Some (a @ '': '' @ l)))"

definition systemLine :: "jsval \<Rightarrow> string option" where
  "systemLine data =
     (case toString (get data ''log'') of
        None \<Rightarrow> None
      | Some l \<Rightarrow> Some (''System: '' @ l))"

definition handleStreamData ::
    "platform \<Rightarrow> jsval \<Rightarrow> world \<Rightarrow> (js_error \<times> world) + world" where
  "handleStreamData env data w =
     (if nullish data then Inl (TypeError, w)
      else
        case
          (if truthy (get data ''agent'') then
             let wa = setAgents data w in
             if truthy (get data ''log'') then
               (case agentLine data of
                  None \<Rightarrow> Inl (TypeError, wa)
                | Some line \<Rightarrow> Inr (addLog env line wa))
             else Inr wa
           else Inr w)
        of
          Inl thrown \<Rightarrow> Inl thrown
        | Inr w1 \<Rightarrow>
            let w2 =
                  (if truthy (get data ''pareto_front'')
                   then w1\<lparr>chartData := get data ''pareto_front''\<rparr>
                   else w1)
            in
            if truthy (get data ''final_candidate'') then
              let wf = w2\<lparr>finalCandidate := get data ''final_candidate''\<rparr> in
              if truthy (get data ''log'') then
                (case systemLine data of
                   None \<Rightarrow> Inl (TypeError, wf)
                 | Some line \<Rightarrow> Inr ((addLog env line wf)\<lparr>isRunning := False\<rparr>))
              else Inr (wf\<lparr>isRunning := False\<rparr>)
            else Inr w2)"

text \<open>
  The body of the \<^verbatim>\<open>for\<close> loop of \<^verbatim>\<open>processStream\<close>: one line. The \<^verbatim>\<open>catch\<close> of the
  inner \<^verbatim>\<open>try\<close> receives the error of \<^verbatim>\<open>JSON.parse\<close> as well as one thrown by the
  handler.
\<close>

definition parseFailed :: "platform \<Rightarrow> js_error \<Rightarrow> world \<Rightarrow> world" where
  "parseFailed env e w =
     addLog env ''System: Error parsing server response.''
       (w\<lparr>console := console w @ [(''JSON parse error:'', e)]\<rparr>)"

text \<open>
  The call \<^verbatim>\<open>handleStreamData(data)\<close> inside the \<^verbatim>\<open>try\<close>: the call is traced, and an
  error thrown by the handler goes to the \<^verbatim>\<open>catch\<close>.
\<close>

definition deliver :: "platform \<Rightarrow> jsval \<Rightarrow> world \<Rightarrow> world" where
  "deliver env data w =
     (case handleStreamData env data (w\<lparr>delivered := delivered w @ [data]\<rparr>) of
        Inl (e, w') \<Rightarrow> parseFailed env e w'
      | Inr w' \<Rightarrow> w')"

definition processLine :: "platform \<Rightarrow> string \<Rightarrow> world \<Rightarrow> world" where
  "processLine env line w =
     (if startsWith line ''data: '' then
        (case JSON_parse env (slice 6 line) of
           None \<Rightarrow> parseFailed env SyntaxError w
         | Some data \<Rightarrow> deliver env data w)
      else w)"

text \<open>
  The result of one \<^verbatim>\<open>await reader.read()\<close>: a chunk of text (what
  \<^verbatim>\<open>decoder.decode(value, {stream: true})\<close> makes of the bytes read), the end of the
  stream, or a rejection. The text of the chunks, concatenated, is the text of the bytes
  concatenated: the streaming decoder holds an incomplete multi-byte sequence back. A
  \<open>string\<close> is a list of bytes, so a list of chunks is a partition of the stream at
  byte offsets.
\<close>

datatype read = Value string | Done | Rejected

definition streamFailed :: "platform \<Rightarrow> world \<Rightarrow> world" where
  "streamFailed env w =
     (addLog env ''System: An error occurred while processing the stream. Please try again.''
        (w\<lparr>console := console w @ [(''Stream processing error:'', ReadFailure)]\<rparr>))
     \<lparr>hasError := True, isRunning := False\<rparr>"

text \<open>
  \<^verbatim>\<open>processStream\<close>: the loop over the reads, with the carry-over \<^verbatim>\<open>buffer\<close>. A list of
  reads that ends without \<open>Done\<close> or \<open>Rejected\<close> leaves the loop waiting for the next
  read.
\<close>

definition pop :: "string list \<Rightarrow> string" where
  "pop lines = (if lines = [] then [] else last lines)"

fun processStream :: "platform \<Rightarrow> read list \<Rightarrow> string \<Rightarrow> world \<Rightarrow> world" where
  "processStream env [] buffer w = w"
| "processStream env (Done # rs) buffer w = w"
| "processStream env (Rejected # rs) buffer w = streamFailed env w"
| "processStream env (Value v # rs) buffer w =
     (let lines = split LF (buffer @ v)
      in processStream env rs (pop lines)
           (foldl (\<lambda>w line. processLine env line w) w (butlast lines)))"

text \<open>
  The value of the variable \<^verbatim>\<open>buffer\<close> when the loop has processed the chunks and waits
  for the next read. A loop that waits is not ended by anything the other handlers do:
  the reader is never cancelled, and the next read resumes the loop on the state of that
  moment, since \<^verbatim>\<open>setAgents\<close> and \<^verbatim>\<open>setLogs\<close> are given updater functions.
\<close>

fun bufferAfter :: "string list \<Rightarrow> string \<Rightarrow> string" where
  "bufferAfter [] buffer = buffer"
| "bufferAfter (v # vs) buffer = bufferAfter vs (pop (split LF (buffer @ v)))"

subsection \<open>Starting and retrying a session\<close>

text \<open>
  What \<^verbatim>\<open>fetch\<close> gives: still pending, rejected (the handler has no \<^verbatim>\<open>catch\<close> for it),
  or a response with its \<^verbatim>\<open>ok\<close> flag, its status as printed, and the reads of its body
  (\<open>None\<close> when there is no body to read).
\<close>

datatype response =
    Pending
  | FetchRejected
  | Response bool string "read list option"

text \<open>
  \<^verbatim>\<open>handleDiscovery\<close>: the test of the credentials (line 106), the setters that reset the
  session (lines 111 to 118), the request (lines 121 to 131), and then what the response
  leads to. The request carries the prompt and the keys of the state the handler was
  created in.
\<close>

definition credentialsMissing :: "world \<Rightarrow> bool" where
  "credentialsMissing w =
     (mpApiKey w = [] \<or> (openaiApiKey w = [] \<and> googleApiKey w = []))"

definition resetSession :: "world \<Rightarrow> world" where
  "resetSession w =
     w\<lparr>isRunning := True, logs := [], chartData := JArray [], finalCandidate := JNull,
       agents := initialAgents, objectives := [], hasError := False, retryCount := 0\<rparr>"

definition apiBase :: "platform \<Rightarrow> string" where
  "apiBase env =
     (case NEXT_PUBLIC_API_BASE env of
        None \<Rightarrow> ''http://localhost:8000''
      | Some b \<Rightarrow> if b = [] then ''http://localhost:8000'' else b)"

definition fetch :: "platform \<Rightarrow> world \<Rightarrow> world \<Rightarrow> world" where
  "fetch env w0 w =
     w\<lparr>requests := requests w @
         [\<lparr>url = apiBase env @ ''/discover'', goal = prompt w0,
           req_openaiApiKey = openaiApiKey w0, req_googleApiKey = googleApiKey w0,
           req_mpApiKey = mpApiKey w0\<rparr>]\<rparr>"

definition handleDiscovery :: "platform \<Rightarrow> response \<Rightarrow> world \<Rightarrow> world" where
  "handleDiscovery env resp w =
     (if credentialsMissing w then
        w\<lparr>alerts := alerts w @
          [''Please enter Materials Project API key and at least one LLM API key (OpenAI or Google).'']\<rparr>
      else
        let w1 = fetch env w (resetSession w) in
        (case resp of
           Pending \<Rightarrow> w1
         | FetchRejected \<Rightarrow> w1
         | Response ok st body \<Rightarrow>
             if ok then
               (case body of
                  None \<Rightarrow>
                    (addLog env ''System: No response body reader available. Please try again.''
                       (w1\<lparr>hasError := True\<rparr>))\<lparr>isRunning := False\<rparr>
                | Some reads \<Rightarrow> processStream env reads [] w1)
             else
               (addLog env (''System: HTTP error! status: '' @ st @
                            ''. Please check your API keys and try again.'')
                  (w1\<lparr>hasError := True\<rparr>))\<lparr>isRunning := False\<rparr>))"

definition handleRetry :: "platform \<Rightarrow> response \<Rightarrow> world \<Rightarrow> world" where
  "handleRetry env resp w =
     (if retryCount w < 3 then
        handleDiscovery env resp
          (addLog env (''System: Retry attempt '' @ decimal (retryCount w + 1) @ ''/3...'')
             (w\<lparr>retryCount := retryCount w + 1\<rparr>))
      else
        addLog env
          ''System: Maximum retry attempts reached. Please check your configuration and try again later.''
          w)"

text \<open>
  The retry button is rendered when \<^verbatim>\<open>hasError\<close> holds and is disabled when
  \<^verbatim>\<open>retryCount >= 3 || isRunning\<close>; a click on it runs \<^verbatim>\<open>handleRetry\<close>.
\<close>

definition retryEnabled :: "world \<Rightarrow> bool" where
  "retryEnabled w = (hasError w \<and> \<not> (3 \<le> retryCount w \<or> isRunning w))"

definition clickRetry :: "platform \<Rightarrow> response \<Rightarrow> world \<Rightarrow> world" where
  "clickRetry env resp w = (if retryEnabled w then handleRetry env resp w else w)"

subsection \<open>The encoder and the lines of a stream\<close>

text \<open>
  Modelled from the spec: the encoder of the event stream, which runs on the server and is
  not among the sources. It writes each event as one record, \<^verbatim>\<open>"data: " + JSON + "\n\n"\<close>.
  The JSON text of an event is what the serializer \<open>ser\<close> of the server gives; the
  theorems say what they need of it.
\<close>

definition dataLine :: "string \<Rightarrow> string" where
  "dataLine t = ''data: '' @ t"

text \<open>Modelled from the spec: the record of one event, in the encoder that is missing.\<close>

definition encodeEvent :: "(jsval \<Rightarrow> string) \<Rightarrow> jsval \<Rightarrow> string" where
  "encodeEvent ser e = dataLine (ser e) @ [LF, LF]"

text \<open>Modelled from the spec: the stream of a sequence of events, in the encoder that is missing.\<close>

definition encode :: "(jsval \<Rightarrow> string) \<Rightarrow> jsval list \<Rightarrow> string" where
  "encode ser es = concat (map (encodeEvent ser) es)"

text \<open>The complete lines of a text: the pieces \<^verbatim>\<open>split\<close> gives, but the last.\<close>

definition completeLines :: "string \<Rightarrow> string list" where
  "completeLines s = butlast (split LF s)"

subsection \<open>The dominance engine\<close>

text \<open>
  Modelled from the spec: \<^verbatim>\<open>computeFront\<close> and the data it works on. It runs on the
  server, whose code is not among the sources. The definitions follow the specification
  of the Dominance Engine (section 4.2) and of its data (section 3).
\<close>

datatype direction = Maximize | Minimize

record objective =
  property :: string
  direction :: direction

record candidate =
  cand_id :: string
  formula :: string
  properties :: "string \<rightharpoonup> real"

text \<open>
  Modelled from the spec: a candidate is eligible when its properties hold a number for
  the property of every objective.
\<close>

definition eligible :: "objective list \<Rightarrow> candidate \<Rightarrow> bool" where
  "eligible objs c = list_all (\<lambda>ob. properties c (property ob) \<noteq> None) objs"

text \<open>
  Modelled from the spec: at least as good under the direction of an objective is \<open>\<ge>\<close>
  for Maximize and \<open>\<le>\<close> for Minimize; strictly better is the strict comparison.
\<close>

definition atLeastAsGood :: "objective \<Rightarrow> candidate \<Rightarrow> candidate \<Rightarrow> bool" where
  "atLeastAsGood ob a b =
     (case (properties a (property ob), properties b (property ob)) of
        (Some x, Some y) \<Rightarrow> (case direction ob of Maximize \<Rightarrow> y \<le> x | Minimize \<Rightarrow> x \<le> y)
      | _ \<Rightarrow> False)"

definition strictlyBetter :: "objective \<Rightarrow> candidate \<Rightarrow> candidate \<Rightarrow> bool" where
  "strictlyBetter ob a b =
     (case (properties a (property ob), properties b (property ob)) of
        (Some x, Some y) \<Rightarrow> (case direction ob of Maximize \<Rightarrow> y < x | Minimize \<Rightarrow> x < y)
      | _ \<Rightarrow> False)"

text \<open>
  Modelled from the spec: \<open>a\<close> dominates \<open>b\<close> when it is at least as good on every
  objective and strictly better on at least one.
\<close>

definition dominates :: "objective list \<Rightarrow> candidate \<Rightarrow> candidate \<Rightarrow> bool" where
  "dominates objs a b =
     (list_all (\<lambda>ob. atLeastAsGood ob a b) objs \<and> list_ex (\<lambda>ob. strictlyBetter ob a b) objs)"

text \<open>
  Modelled from the spec: the tie-break. Among the members of the front, the candidate
  with the lexicographically smallest \<^verbatim>\<open>id\<close>; none when the front is empty.
\<close>

fun best :: "candidate list \<Rightarrow> candidate option" where
  "best [] = None"
| "best (c # cs) =
     (case best cs of
        None \<Rightarrow> Some c
      | Some d \<Rightarrow> if cand_id c \<le> cand_id d then Some c else Some d)"

text \<open>
  Modelled from the spec: \<^verbatim>\<open>computeFront\<close>. Candidates that are not eligible are left
  out before the comparison; the front holds the eligible candidates that no eligible
  candidate dominates, by pairwise comparison.
\<close>

definition computeFront :: "candidate list \<Rightarrow> objective list \<Rightarrow> candidate list \<times> candidate option" where
  "computeFront candidates objs =
     (let el = filter (eligible objs) candidates;
          front = filter (\<lambda>c. \<not> list_ex (\<lambda>d. dominates objs d c) el) el
      in (front, best front))"

subsection \<open>Concrete inputs\<close>

text \<open>
  The state of the component when it is mounted (the arguments of its \<^verbatim>\<open>useState\<close>
  calls), and the same with a database key and one language-model key entered.
\<close>

definition initialWorld :: world where
  "initialWorld =
     \<lparr>prompt = ''Find stable ternary oxides with a high band gap and low formation energy per atom.'',
      isRunning = False, logs = [], chartData = JArray [], finalCandidate = JNull,
      objectives = [], openaiApiKey = [], googleApiKey = [], mpApiKey = [],
      retryCount = 0, hasError = False, agents = initialAgents,
      alerts = [], requests = [], console = [], delivered = [], ticks = 0\<rparr>"

definition readyWorld :: world where
  "readyWorld = initialWorld\<lparr>googleApiKey := ''AI-key'', mpApiKey := ''mp-key''\<rparr>"

text \<open>
  Three events of the wire format, and a writer of compact JSON text for them (strings
  are written without escapes, which is right for strings with no quote, backslash or
  control character). The example platform parses exactly the texts of these events.
\<close>

definition statusEvent :: jsval where
  "statusEvent =
     JObject [(''agent'', JString ''Athena''), (''status'', JString ''thinking''),
              (''log'', JString ''Planning the query'')]"

definition frontEvent :: jsval where
  "frontEvent =
     JObject [(''pareto_front'',
        JArray [JObject [(''formula_pretty'', JString ''TiO2''), (''band_gap'', JNumber ''2.1'')]])]"

definition finalEvent :: jsval where
  "finalEvent =
     JObject [(''final_candidate'',
                 JObject [(''formula'', JString ''TiO2''),
                          (''properties'', JObject [(''band_gap'', JNumber ''2.1'')])]),
              (''log'', JString ''Discovery complete'')]"

definition quoted :: "string \<Rightarrow> string" where
  "quoted s = CHR 0x22 # s @ [CHR 0x22]"

fun stringify :: "jsval \<Rightarrow> string" where
  "stringify JUndefined = ''null''"
| "stringify JNull = ''null''"
| "stringify (JBool b) = (if b then ''true'' else ''false'')"
| "stringify (JNumber n) = n"
| "stringify (JString s) = quoted s"
| "stringify (JArray xs) = ''['' @ join '','' (map stringify xs) @ '']''"
| "stringify (JObject kvs) =
     ''{'' @ join '','' (map (\<lambda>kv. quoted (fst kv) @ '':'' @ stringify (snd kv)) kvs) @ ''}''"

definition exampleEvents :: "jsval list" where
  "exampleEvents = [statusEvent, frontEvent, finalEvent]"

definition examplePlatform :: platform where
  "examplePlatform =
     \<lparr>JSON_parse = map_of (map (\<lambda>e. (stringify e, e)) exampleEvents),
      toLocaleTimeString = decimal,
      NEXT_PUBLIC_API_BASE = None\<rparr>"

text \<open>The encoded events, delivered in three chunks cut inside a line and inside a token.\<close>

definition exampleChunks :: "string list" where
  "exampleChunks =
     (let t = encode stringify exampleEvents
      in [take 3 t, take 35 (drop 3 t), drop 38 t])"

text \<open>
  A stream with a record that is not JSON between two events, cut in two chunks inside
  the bad record.
\<close>

definition brokenLine :: string where
  "brokenLine = ''data: {oops''"

definition brokenChunks :: "string list" where
  "brokenChunks =
     (let t = encode stringify [statusEvent] @ brokenLine @ LF # LF # encode stringify [finalEvent]
      in [take 78 t, drop 78 t])"

text \<open>
  A terminal event with an empty log line, one whose \<^verbatim>\<open>final_candidate\<close> is \<^verbatim>\<open>null\<close>, one
  whose \<^verbatim>\<open>log\<close> is an object with a property \<^verbatim>\<open>toString\<close>, and a session that is running.
\<close>

definition silentFinalEvent :: jsval where
  "silentFinalEvent =
     JObject [(''final_candidate'',
                 JObject [(''formula'', JString ''TiO2''), (''properties'', JObject [])]),
              (''log'', JString [])]"

definition nullFinalEvent :: jsval where
  "nullFinalEvent = JObject [(''final_candidate'', JNull), (''log'', JString ''Nothing found'')]"

definition unprintableFinalEvent :: jsval where
  "unprintableFinalEvent =
     JObject [(''final_candidate'',
                 JObject [(''formula'', JString ''TiO2''), (''properties'', JObject [])]),
              (''log'', JObject [(''toString'', JNull)])]"

definition runningWorld :: world where
  "runningWorld = handleDiscovery examplePlatform Pending readyWorld"

text \<open>A response with status 500, and the session it ends.\<close>

definition httpError :: response where
  "httpError = Response False ''500'' None"

definition failedWorld :: world where
  "failedWorld = handleDiscovery examplePlatform httpError readyWorld"

text \<open>
  A session whose stream has brought the final event and is still open; a new session
  started after it; and the state after the stream of the first session has delivered
  one more event.
\<close>

definition endedWorld :: world where
  "endedWorld =
     handleDiscovery examplePlatform
       (Response True ''200'' (Some [Value (encode stringify [finalEvent])])) readyWorld"

definition restartedWorld :: world where
  "restartedWorld = handleDiscovery examplePlatform Pending endedWorld"

definition lateWorld :: world where
  "lateWorld =
     processStream examplePlatform [Value (encode stringify [statusEvent])]
       (bufferAfter [encode stringify [finalEvent]] []) restartedWorld"

text \<open>The scenario of the specification: two objectives, three candidates.\<close>

definition exampleObjectives :: "objective list" where
  "exampleObjectives =
     [\<lparr>property = ''band_gap'', direction = Maximize\<rparr>,
      \<lparr>property = ''formation_energy_per_atom'', direction = Minimize\<rparr>]"

definition candA :: candidate where
  "candA = \<lparr>cand_id = ''A'', formula = ''A'',
            properties = [''band_gap'' \<mapsto> 2.1, ''formation_energy_per_atom'' \<mapsto> - 0.5]\<rparr>"

definition candB :: candidate where
  "candB = \<lparr>cand_id = ''B'', formula = ''B'',
            properties = [''band_gap'' \<mapsto> 1.8, ''formation_energy_per_atom'' \<mapsto> - 0.9]\<rparr>"

definition candC :: candidate where
  "candC = \<lparr>cand_id = ''C'', formula = ''C'',
            properties = [''band_gap'' \<mapsto> 1.0, ''formation_energy_per_atom'' \<mapsto> - 0.1]\<rparr>"

section \<open>Properties\<close>

subsection \<open>Splitting into lines\<close>

lemma split_not_Nil: "split c s \<noteq> []"
  by (induction s) (auto split: list.splits)

lemma split_append:
  "split c (s @ t) = butlast (split c s) @ split c (last (split c s) @ t)"
proof (induction s)
  case Nil
  show ?case by simp
next
  case (Cons x xs)
  obtain p ps where sp: "split c xs = p # ps"
    using split_not_Nil [of c xs] by (cases "split c xs") auto
  show ?case
  proof (cases "x = c")
    case True
    with Cons sp show ?thesis by simp
  next
    case False
    show ?thesis
    proof (cases ps)
      case Nil
      with Cons sp False show ?thesis by (simp split: list.splits)
    next
      case (Cons q qs)
      with Cons.IH sp False show ?thesis by simp
    qed
  qed
qed

lemma split_no_sep: "c \<notin> set s \<Longrightarrow> split c s = [s]"
  by (induction s) auto

lemma split_line: "c \<notin> set s \<Longrightarrow> split c (s @ c # t) = s # split c t"
  by (induction s) auto

lemma completeLines_append:
  "completeLines (s @ t) = completeLines s @ completeLines (pop (split LF s) @ t)"
  unfolding completeLines_def pop_def
  using split_append [of LF s t] split_not_Nil [of LF "last (split LF s) @ t"]
  by (simp add: split_not_Nil butlast_append)

lemma pop_split_append:
  "pop (split LF (s @ t)) = pop (split LF (pop (split LF s) @ t))"
  unfolding pop_def
  using split_append [of LF s t] split_not_Nil [of LF "last (split LF s) @ t"]
  by (simp add: split_not_Nil)

lemma split_pieces: "p \<in> set (split c s) \<Longrightarrow> c \<notin> set p"
  by (induction s arbitrary: p) (auto split: list.splits if_splits)

lemma pop_split_no_LF: "LF \<notin> set (pop (split LF s))"
  unfolding pop_def using split_pieces [of "last (split LF s)" LF s] split_not_Nil [of LF s]
  by simp

lemma completeLines_no_LF: "LF \<notin> set b \<Longrightarrow> completeLines b = []"
  by (simp add: completeLines_def split_no_sep)

subsection \<open>The decoder processes the complete lines of the stream, in order\<close>

lemma processStream_values:
  "LF \<notin> set b \<Longrightarrow>
   processStream env (map Value cs) b w =
     foldl (\<lambda>w line. processLine env line w) w (completeLines (b @ concat cs))"
proof (induction cs arbitrary: b w)
  case Nil
  then show ?case by (simp add: completeLines_no_LF)
next
  case (Cons v cs)
  have "processStream env (map Value (v # cs)) b w =
        processStream env (map Value cs) (pop (split LF (b @ v)))
          (foldl (\<lambda>w line. processLine env line w) w (completeLines (b @ v)))"
    by (simp add: completeLines_def Let_def)
  also have "\<dots> = foldl (\<lambda>w line. processLine env line w) w
        (completeLines (b @ v) @ completeLines (pop (split LF (b @ v)) @ concat cs))"
    by (simp add: Cons.IH [OF pop_split_no_LF])
  also have "\<dots> = foldl (\<lambda>w line. processLine env line w) w (completeLines ((b @ v) @ concat cs))"
    by (simp only: completeLines_append [of "b @ v" "concat cs"])
  finally show ?case by simp
qed

lemma processStream_Done:
  "processStream env (map Value cs @ Done # rs) b w = processStream env (map Value cs) b w"
  by (induction cs arbitrary: b w) (simp_all add: Let_def)

subsection \<open>Encoded streams\<close>

lemma LF_dataLine: "LF \<notin> set t \<Longrightarrow> LF \<notin> set (dataLine t)"
  by (simp add: dataLine_def LF_def)

lemma split_encode:
  "\<forall>e\<in>set es. LF \<notin> set (ser e) \<Longrightarrow>
   split LF (encode ser es @ t) = concat (map (\<lambda>e. [dataLine (ser e), []]) es) @ split LF t"
proof (induction es)
  case Nil
  show ?case by (simp add: encode_def)
next
  case (Cons e es)
  have nl: "LF \<notin> set (dataLine (ser e))"
    using Cons.prems by (simp add: LF_dataLine)
  have "split LF (encode ser (e # es) @ t) =
        split LF (dataLine (ser e) @ LF # ([] @ LF # (encode ser es @ t)))"
    by (simp add: encode_def encodeEvent_def)
  also have "\<dots> = dataLine (ser e) # split LF ([] @ LF # (encode ser es @ t))"
    by (rule split_line [OF nl])
  also have "\<dots> = dataLine (ser e) # [] # split LF (encode ser es @ t)"
    by simp
  finally show ?case using Cons by simp
qed

lemma completeLines_encode:
  "\<forall>e\<in>set es. LF \<notin> set (ser e) \<Longrightarrow>
   completeLines (encode ser es) = concat (map (\<lambda>e. [dataLine (ser e), []]) es)"
  using split_encode [of es ser "[]"] by (simp add: completeLines_def)

lemma processLine_empty: "processLine env [] w = w"
  by (simp add: processLine_def startsWith_def)

lemma processLine_data:
  "JSON_parse env t = Some e \<Longrightarrow> processLine env (dataLine t) w = deliver env e w"
  by (simp add: processLine_def startsWith_def slice_def dataLine_def)

lemma foldl_encoded:
  "\<forall>e\<in>set es. JSON_parse env (ser e) = Some e \<Longrightarrow>
   foldl (\<lambda>w line. processLine env line w) w (concat (map (\<lambda>e. [dataLine (ser e), []]) es))
     = foldl (\<lambda>w e. deliver env e w) w es"
  by (induction es arbitrary: w) (simp_all add: processLine_empty processLine_data)

lemma delivered_addLog: "delivered (addLog env m w) = delivered w"
  by (simp add: addLog_def)

lemma delivered_handleStreamData:
  "delivered (case handleStreamData env d w of Inl (e, w') \<Rightarrow> w' | Inr w' \<Rightarrow> w') = delivered w"
  by (simp add: handleStreamData_def Let_def setAgents_def delivered_addLog
      split: option.splits)

lemma delivered_deliver: "delivered (deliver env d w) = delivered w @ [d]"
  using delivered_handleStreamData [of env d "w\<lparr>delivered := delivered w @ [d]\<rparr>"]
  by (simp add: deliver_def parseFailed_def delivered_addLog split: sum.splits prod.splits)

lemma delivered_foldl_deliver:
  "delivered (foldl (\<lambda>w e. deliver env e w) w es) = delivered w @ es"
  by (induction es arbitrary: w) (simp_all add: delivered_deliver)

text \<open>
  Claim C1 (round trip of the event stream codec). Let \<open>es\<close> be any finite sequence of
  events, each encoded as one record \<^verbatim>\<open>"data: " + JSON + "\n\n"\<close>, where the JSON text of
  an event is one line that \<^verbatim>\<open>JSON.parse\<close> reads back as the event. For every list of
  chunks whose concatenation is the encoded stream (cuts at any offset, inside a line or
  inside a token), the decoder, started with an empty buffer, does exactly what calling
  \<^verbatim>\<open>handleStreamData\<close> on the events one after the other does, whether the stream has
  been closed or not, and the calls of \<^verbatim>\<open>handleStreamData\<close> it adds to the trace are the
  events of \<open>es\<close>, in order.
\<close>

theorem C1_roundtrip:
  assumes "\<forall>e\<in>set es. JSON_parse env (ser e) = Some e \<and> LF \<notin> set (ser e)"
    and "concat chunks = encode ser es"
  shows "processStream env (map Value chunks) [] w = foldl (\<lambda>w e. deliver env e w) w es
       \<and> processStream env (map Value chunks @ [Done]) [] w = foldl (\<lambda>w e. deliver env e w) w es
       \<and> delivered (processStream env (map Value chunks @ [Done]) [] w) = delivered w @ es"
proof -
  have "processStream env (map Value chunks) [] w =
        foldl (\<lambda>w line. processLine env line w) w (completeLines (encode ser es))"
    using processStream_values [of "[]" env chunks w] assms(2) by simp
  also have "\<dots> = foldl (\<lambda>w e. deliver env e w) w es"
    using assms(1) by (simp add: completeLines_encode foldl_encoded)
  finally show ?thesis
    by (simp add: processStream_Done delivered_foldl_deliver)
qed


subsection \<open>The example stream\<close>

lemmas example_defs =
  exampleEvents_def statusEvent_def frontEvent_def finalEvent_def examplePlatform_def
  quoted_def LF_def

lemma example_parse:
  "\<forall>e\<in>set exampleEvents. JSON_parse examplePlatform (stringify e) = Some e \<and> LF \<notin> set (stringify e)"
  by (simp add: example_defs)

lemma example_chunks: "concat exampleChunks = encode stringify exampleEvents"
proof -
  have "drop 38 (encode stringify exampleEvents) = drop 35 (drop 3 (encode stringify exampleEvents))"
    by simp
  then show ?thesis
    by (simp only: exampleChunks_def Let_def concat.simps append_Nil2 append_take_drop_id)
qed

theorem C1_roundtrip_witness:
  "concat exampleChunks = encode stringify exampleEvents
   \<and> delivered (processStream examplePlatform (map Value exampleChunks @ [Done]) [] readyWorld)
      = [statusEvent, frontEvent, finalEvent]"
proof -
  have "delivered (processStream examplePlatform (map Value exampleChunks @ [Done]) [] readyWorld)
        = delivered readyWorld @ exampleEvents"
    using C1_roundtrip [OF example_parse example_chunks, of readyWorld] by blast
  then show ?thesis
    using example_chunks by (simp add: exampleEvents_def readyWorld_def initialWorld_def)
qed

subsection \<open>Lines that are not data lines\<close>

lemma processLine_other: "\<not> startsWith line ''data: '' \<Longrightarrow> processLine env line w = w"
  by (simp add: processLine_def)

lemma foldl_processLine_filter:
  "foldl (\<lambda>w line. processLine env line w) w ls =
   foldl (\<lambda>w line. processLine env line w) w (filter (\<lambda>l. startsWith l ''data: '') ls)"
  by (induction ls arbitrary: w) (simp_all add: processLine_other)

text \<open>
  Claim C9 (decoder filtering). A complete line that does not begin with the exact
  prefix \<^verbatim>\<open>data: \<close> leaves the whole state as it is: no call of \<^verbatim>\<open>handleStreamData\<close>, no log
  entry, nothing on the console, no error flag. So the decoder does to any chunked stream
  what it does to the data lines among its complete lines; the empty lines of the record
  framing and every other line drop out.
\<close>

theorem C9_other_lines_discarded:
  "(\<not> startsWith line ''data: '' \<longrightarrow> processLine env line w = w)
   \<and> processStream env (map Value chunks) [] w =
       foldl (\<lambda>w line. processLine env line w) w
         (filter (\<lambda>l. startsWith l ''data: '') (completeLines (concat chunks)))"
proof -
  have "processStream env (map Value chunks) [] w =
        foldl (\<lambda>w line. processLine env line w) w (completeLines (concat chunks))"
    using processStream_values [of "[]" env chunks w] by simp
  then show ?thesis
    using foldl_processLine_filter [of env w "completeLines (concat chunks)"]
    by (simp add: processLine_other)
qed

theorem C9_other_lines_discarded_witness:
  "\<not> startsWith ''event: ping'' ''data: ''
   \<and> processLine examplePlatform ''event: ping'' runningWorld = runningWorld
   \<and> processLine examplePlatform [] runningWorld = runningWorld"
  using C9_other_lines_discarded [of "''event: ping''" examplePlatform runningWorld]
        C9_other_lines_discarded [of "[]" examplePlatform runningWorld]
  by (simp add: startsWith_def)

subsection \<open>A record that is not JSON\<close>

lemma parseFailed_eq:
  "parseFailed env e w =
     w\<lparr>console := console w @ [(''JSON parse error:'', e)],
       logs := logs w @ [\<lparr>time = toLocaleTimeString env (ticks w),
                         message = ''System: Error parsing server response.''\<rparr>],
       ticks := Suc (ticks w)\<rparr>"
  by (simp add: parseFailed_def addLog_def)

lemma processLine_bad:
  "startsWith line ''data: '' \<Longrightarrow> JSON_parse env (slice 6 line) = None \<Longrightarrow>
   processLine env line w = parseFailed env SyntaxError w"
  by (simp add: processLine_def)

lemma completeLines_bad_between:
  assumes "\<forall>e\<in>set es0 \<union> set es. LF \<notin> set (ser e)" and "LF \<notin> set line"
  shows "completeLines (encode ser es0 @ line @ LF # LF # encode ser es) =
         concat (map (\<lambda>e. [dataLine (ser e), []]) es0) @ line # [] #
         concat (map (\<lambda>e. [dataLine (ser e), []]) es)"
proof -
  have a: "\<forall>e\<in>set es0. LF \<notin> set (ser e)" and b: "\<forall>e\<in>set es. LF \<notin> set (ser e)"
    using assms(1) by auto
  have "split LF (encode ser es0 @ (line @ LF # LF # encode ser es)) =
        concat (map (\<lambda>e. [dataLine (ser e), []]) es0) @ split LF (line @ LF # LF # encode ser es)"
    by (rule split_encode [OF a])
  also have "split LF (line @ LF # LF # encode ser es) = line # [] # split LF (encode ser es @ [])"
    using split_line [OF assms(2)] by simp
  also have "split LF (encode ser es @ []) = concat (map (\<lambda>e. [dataLine (ser e), []]) es) @ split LF []"
    by (rule split_encode [OF b])
  finally show ?thesis
    by (simp add: completeLines_def butlast_append)
qed

lemma delivered_parseFailed: "delivered (parseFailed env e w) = delivered w"
  by (simp add: parseFailed_eq)

text \<open>
  Claim C4 (decode-error isolation). Let \<open>line\<close> begin with \<^verbatim>\<open>data: \<close> and let its
  remainder be rejected by \<^verbatim>\<open>JSON.parse\<close>. Processing the line writes the parse error to the
  console, appends the log entry \<^verbatim>\<open>System: Error parsing server response.\<close> and changes
  nothing else. When the line stands in a stream between the records of the events \<open>es0\<close>
  and those of the events \<open>es\<close>, then for every chunking the loop goes on: the decoder
  delivers \<open>es0\<close>, handles the bad line, and delivers every event of \<open>es\<close> to
  \<^verbatim>\<open>handleStreamData\<close>, in order.
\<close>

theorem C4_bad_record_skipped:
  assumes "startsWith line ''data: ''" and "JSON_parse env (slice 6 line) = None"
    and "LF \<notin> set line"
    and "\<forall>e\<in>set es0 \<union> set es. JSON_parse env (ser e) = Some e \<and> LF \<notin> set (ser e)"
    and "concat chunks = encode ser es0 @ line @ LF # LF # encode ser es"
  shows "processLine env line w =
           w\<lparr>console := console w @ [(''JSON parse error:'', SyntaxError)],
             logs := logs w @ [\<lparr>time = toLocaleTimeString env (ticks w),
                               message = ''System: Error parsing server response.''\<rparr>],
             ticks := Suc (ticks w)\<rparr>
       \<and> processStream env (map Value chunks) [] w =
           foldl (\<lambda>w e. deliver env e w)
             (processLine env line (foldl (\<lambda>w e. deliver env e w) w es0)) es
       \<and> delivered (processStream env (map Value chunks) [] w) = delivered w @ es0 @ es"
proof -
  let ?pl = "\<lambda>w line. processLine env line w"
  let ?dl = "\<lambda>w e. deliver env e w"
  have p0: "\<forall>e\<in>set es0. JSON_parse env (ser e) = Some e"
    and p1: "\<forall>e\<in>set es. JSON_parse env (ser e) = Some e"
    and nl: "\<forall>e\<in>set es0 \<union> set es. LF \<notin> set (ser e)"
    using assms(4) by auto
  have "processStream env (map Value chunks) [] w =
        foldl ?pl w (completeLines (encode ser es0 @ line @ LF # LF # encode ser es))"
    using processStream_values [of "[]" env chunks w] assms(5) by simp
  also have "\<dots> = foldl ?pl (?pl (foldl ?pl w (concat (map (\<lambda>e. [dataLine (ser e), []]) es0))) line)
                      (concat (map (\<lambda>e. [dataLine (ser e), []]) es))"
    by (simp add: completeLines_bad_between [OF nl assms(3)] processLine_empty)
  also have "\<dots> = foldl ?dl (?pl (foldl ?dl w es0) line) es"
    by (simp only: foldl_encoded [OF p0] foldl_encoded [OF p1])
  finally have stream: "processStream env (map Value chunks) [] w =
      foldl ?dl (processLine env line (foldl ?dl w es0)) es" .
  have line: "processLine env line v = parseFailed env SyntaxError v" for v
    using assms(1,2) by (rule processLine_bad)
  show ?thesis
    by (simp add: stream line delivered_foldl_deliver delivered_parseFailed)
       (simp add: parseFailed_eq)
qed

lemma broken_chunks:
  "concat brokenChunks =
     encode stringify [statusEvent] @ brokenLine @ LF # LF # encode stringify [finalEvent]"
  by (simp only: brokenChunks_def Let_def concat.simps append_Nil2 append_take_drop_id)

theorem C4_bad_record_skipped_witness:
  "startsWith brokenLine ''data: '' \<and> JSON_parse examplePlatform (slice 6 brokenLine) = None
   \<and> delivered (processStream examplePlatform (map Value brokenChunks) [] runningWorld)
       = [statusEvent, finalEvent]
   \<and> map message (logs (processLine examplePlatform brokenLine runningWorld))
       = [''System: Error parsing server response.'']"
proof -
  have h1: "startsWith brokenLine ''data: ''"
    by (simp add: brokenLine_def startsWith_def)
  have h2: "JSON_parse examplePlatform (slice 6 brokenLine) = None"
    by (simp add: brokenLine_def slice_def example_defs)
  have h3: "LF \<notin> set brokenLine"
    by (simp add: brokenLine_def LF_def)
  have h4: "\<forall>e\<in>set [statusEvent] \<union> set [finalEvent].
              JSON_parse examplePlatform (stringify e) = Some e \<and> LF \<notin> set (stringify e)"
    using example_parse by (simp add: exampleEvents_def)
  have rw: "delivered runningWorld = []" "logs runningWorld = []"
    by (simp_all add: runningWorld_def handleDiscovery_def credentialsMissing_def readyWorld_def
        initialWorld_def fetch_def resetSession_def)
  note t = C4_bad_record_skipped [OF h1 h2 h3 h4 broken_chunks, of runningWorld]
  have a: "delivered (processStream examplePlatform (map Value brokenChunks) [] runningWorld)
           = delivered runningWorld @ [statusEvent] @ [finalEvent]"
    using t by blast
  have b: "logs (processLine examplePlatform brokenLine runningWorld) =
           logs runningWorld @ [\<lparr>time = toLocaleTimeString examplePlatform (ticks runningWorld),
                                   message = ''System: Error parsing server response.''\<rparr>]"
    using t by simp
  show ?thesis
    using h1 h2 by (simp add: a b rw)
qed

subsection \<open>Starting a session\<close>

text \<open>
  Claim C5 (credential precondition). When the database key \<^verbatim>\<open>mpApiKey\<close> is empty, or
  both language-model keys are empty, \<^verbatim>\<open>handleDiscovery\<close> shows the alert and returns:
  whatever the server would answer, the state is the one before with the alert added. No
  request is issued, no event is delivered, nothing is logged and the session is not
  marked as running.
\<close>

theorem C5_missing_credentials:
  assumes "mpApiKey w = [] \<or> (openaiApiKey w = [] \<and> googleApiKey w = [])"
  shows "handleDiscovery env resp w =
           w\<lparr>alerts := alerts w @
             [''Please enter Materials Project API key and at least one LLM API key (OpenAI or Google).'']\<rparr>
       \<and> requests (handleDiscovery env resp w) = requests w
       \<and> delivered (handleDiscovery env resp w) = delivered w
       \<and> logs (handleDiscovery env resp w) = logs w
       \<and> isRunning (handleDiscovery env resp w) = isRunning w"
  using assms by (simp add: handleDiscovery_def credentialsMissing_def)

theorem C5_missing_credentials_witness:
  "mpApiKey initialWorld = []
   \<and> requests (handleDiscovery examplePlatform
        (Response True ''200'' (Some (map Value exampleChunks @ [Done]))) initialWorld) = []
   \<and> delivered (handleDiscovery examplePlatform
        (Response True ''200'' (Some (map Value exampleChunks @ [Done]))) initialWorld) = []
   \<and> logs (handleDiscovery examplePlatform
        (Response True ''200'' (Some (map Value exampleChunks @ [Done]))) initialWorld) = []
   \<and> isRunning (handleDiscovery examplePlatform
        (Response True ''200'' (Some (map Value exampleChunks @ [Done]))) initialWorld) = False"
  using C5_missing_credentials [of initialWorld examplePlatform
          "Response True ''200'' (Some (map Value exampleChunks @ [Done]))"]
  by (simp add: initialWorld_def)

lemma handleDiscovery_started:
  assumes "mpApiKey w \<noteq> []" and "openaiApiKey w \<noteq> [] \<or> googleApiKey w \<noteq> []"
  shows "handleDiscovery env Pending w = fetch env w (resetSession w)"
  using assms by (auto simp: handleDiscovery_def credentialsMissing_def)

lemma credentialsMissing_session:
  "credentialsMissing
     (w\<lparr>isRunning := ir, logs := ls, chartData := cd, finalCandidate := fc, agents := ags,
        objectives := objs, hasError := he, retryCount := rc\<rparr>) = credentialsMissing w"
  by (simp add: credentialsMissing_def)

lemma handleDiscovery_forgets:
  "\<not> credentialsMissing w \<Longrightarrow>
   handleDiscovery env resp
     (w\<lparr>isRunning := ir, logs := ls, chartData := cd, finalCandidate := fc, agents := ags,
        objectives := objs, hasError := he, retryCount := rc\<rparr>) = handleDiscovery env resp w"
  unfolding handleDiscovery_def credentialsMissing_session
  by (simp add: fetch_def resetSession_def)

text \<open>
  Claim C10 (session reset), amended. When the credential check passes,
  \<^verbatim>\<open>handleDiscovery\<close> has, by the time the request is pending, set \<^verbatim>\<open>isRunning\<close>, emptied
  the logs, the chart data and the objectives, cleared the final candidate, put the five
  agents back to idle, cleared the error flag and the retry count, and issued one
  request: no state of a previous session is visible at the moment the new session
  starts. What these state variables held before has no influence on what the handler
  does with any response. The amended claim says nothing of events that a stream of a
  previous session delivers later.
\<close>

theorem C10_session_reset:
  assumes "mpApiKey w \<noteq> []" and "openaiApiKey w \<noteq> [] \<or> googleApiKey w \<noteq> []"
  shows "handleDiscovery env Pending w =
           w\<lparr>isRunning := True, logs := [], chartData := JArray [], finalCandidate := JNull,
             agents := initialAgents, objectives := [], hasError := False, retryCount := 0,
             requests := requests w @
               [\<lparr>url = apiBase env @ ''/discover'', goal = prompt w,
                 req_openaiApiKey = openaiApiKey w, req_googleApiKey = googleApiKey w,
                 req_mpApiKey = mpApiKey w\<rparr>]\<rparr>
       \<and> list_all (\<lambda>a. status a = JString ''idle'') (agents (handleDiscovery env Pending w))
       \<and> handleDiscovery env resp
           (w\<lparr>isRunning := ir, logs := ls, chartData := cd, finalCandidate := fc, agents := ags,
              objectives := objs, hasError := he, retryCount := rc\<rparr>)
         = handleDiscovery env resp w"
proof -
  have ok: "\<not> credentialsMissing w"
    using assms by (auto simp: credentialsMissing_def)
  show ?thesis
    using assms
    by (simp add: handleDiscovery_started handleDiscovery_forgets [OF ok])
       (simp add: fetch_def resetSession_def initialAgents_def)
qed

lemma failedWorld_eq:
  "failedWorld =
     readyWorld\<lparr>isRunning := False,
       logs := [\<lparr>time = ''0'', message =
         ''System: HTTP error! status: 500. Please check your API keys and try again.''\<rparr>],
       hasError := True,
       requests := [\<lparr>url = ''http://localhost:8000/discover'', goal = prompt readyWorld,
                     req_openaiApiKey = [], req_googleApiKey = ''AI-key'',
                     req_mpApiKey = ''mp-key''\<rparr>],
       ticks := 1\<rparr>"
  by (simp add: failedWorld_def httpError_def handleDiscovery_def credentialsMissing_def
      readyWorld_def initialWorld_def fetch_def resetSession_def addLog_def
      examplePlatform_def apiBase_def decimal.simps digitChar_def)

theorem C10_session_reset_witness:
  "mpApiKey failedWorld \<noteq> [] \<and> googleApiKey failedWorld \<noteq> []
   \<and> logs failedWorld \<noteq> [] \<and> hasError failedWorld
   \<and> logs (handleDiscovery examplePlatform Pending failedWorld) = []
   \<and> hasError (handleDiscovery examplePlatform Pending failedWorld) = False
   \<and> agents (handleDiscovery examplePlatform Pending failedWorld) = initialAgents
   \<and> retryCount (handleDiscovery examplePlatform Pending failedWorld) = 0"
proof -
  have k: "mpApiKey failedWorld \<noteq> []"
    "openaiApiKey failedWorld \<noteq> [] \<or> googleApiKey failedWorld \<noteq> []"
    by (simp_all add: failedWorld_eq readyWorld_def initialWorld_def)
  have "handleDiscovery examplePlatform Pending failedWorld =
        failedWorld\<lparr>isRunning := True, logs := [], chartData := JArray [], finalCandidate := JNull,
             agents := initialAgents, objectives := [], hasError := False, retryCount := 0,
             requests := requests failedWorld @
               [\<lparr>url = apiBase examplePlatform @ ''/discover'', goal = prompt failedWorld,
                 req_openaiApiKey = openaiApiKey failedWorld,
                 req_googleApiKey = googleApiKey failedWorld,
                 req_mpApiKey = mpApiKey failedWorld\<rparr>]\<rparr>"
    using C10_session_reset [OF k, of examplePlatform] by blast
  then show ?thesis
    by (simp add: failedWorld_eq readyWorld_def initialWorld_def)
qed

subsection \<open>Retrying\<close>

lemma handleRetry_at_limit:
  "3 \<le> retryCount w \<Longrightarrow>
   handleRetry env resp w =
     addLog env
       ''System: Maximum retry attempts reached. Please check your configuration and try again later.''
       w"
  by (simp add: handleRetry_def)

lemma handleRetry_resets_count:
  assumes "retryCount w < 3" and "\<not> credentialsMissing w"
  shows "retryCount (handleRetry env (Response False st body) w) = 0"
    and "hasError (handleRetry env (Response False st body) w)"
    and "\<not> isRunning (handleRetry env (Response False st body) w)"
    and "\<not> credentialsMissing (handleRetry env (Response False st body) w)"
    and "length (requests (handleRetry env (Response False st body) w)) = Suc (length (requests w))"
  using assms
  by (auto simp: handleRetry_def handleDiscovery_def credentialsMissing_def addLog_def
      fetch_def resetSession_def)

lemma retries_not_bounded:
  assumes "hasError w" and "\<not> isRunning w" and "retryCount w = 0" and "\<not> credentialsMissing w"
  shows "length (requests (foldl (\<lambda>w r. clickRetry env r w) w (replicate n (Response False st body))))
         = length (requests w) + n"
  using assms
proof (induction n arbitrary: w)
  case 0
  show ?case by simp
next
  case (Suc n)
  let ?w = "clickRetry env (Response False st body) w"
  have en: "retryEnabled w" and lt: "retryCount w < 3"
    using Suc.prems by (simp_all add: retryEnabled_def)
  have step: "?w = handleRetry env (Response False st body) w"
    using en by (simp add: clickRetry_def)
  have "length (requests (foldl (\<lambda>w r. clickRetry env r w) ?w (replicate n (Response False st body))))
        = length (requests ?w) + n"
    unfolding step
    by (rule Suc.IH) (rule handleRetry_resets_count [OF lt Suc.prems(4)])+
  then show ?case
    by (simp add: step handleRetry_resets_count [OF lt Suc.prems(4)])
qed

text \<open>
  Claim C6 (bounded retry) at a concrete input. \<^verbatim>\<open>handleRetry\<close> does not call
  \<^verbatim>\<open>handleDiscovery\<close> once \<^verbatim>\<open>retryCount\<close> has reached 3 (\<open>handleRetry_at_limit\<close>). But
  \<^verbatim>\<open>handleDiscovery\<close> sets \<^verbatim>\<open>retryCount\<close> back to 0, so the count never advances when the
  credentials are present (\<open>handleRetry_resets_count\<close>), and the number of replays has no
  bound (\<open>retries_not_bounded\<close>). Here: a session that ended with an HTTP error is
  retried four times with the retry button, each replay ending with an HTTP error. Four
  further requests are issued, the count is 0 again, and the button is still enabled.
\<close>

theorem C6_retry_not_bounded:
  "retryEnabled failedWorld \<and> length (requests failedWorld) = 1
   \<and> length (requests
        (clickRetry examplePlatform httpError (clickRetry examplePlatform httpError
          (clickRetry examplePlatform httpError (clickRetry examplePlatform httpError
             failedWorld))))) = 5
   \<and> retryCount
        (clickRetry examplePlatform httpError (clickRetry examplePlatform httpError
          (clickRetry examplePlatform httpError (clickRetry examplePlatform httpError
             failedWorld)))) = 0
   \<and> retryEnabled
        (clickRetry examplePlatform httpError (clickRetry examplePlatform httpError
          (clickRetry examplePlatform httpError (clickRetry examplePlatform httpError
             failedWorld))))"
proof -
  have a: "hasError failedWorld" "\<not> isRunning failedWorld" "retryCount failedWorld = 0"
    "\<not> credentialsMissing failedWorld" "length (requests failedWorld) = 1"
    by (simp_all add: failedWorld_eq readyWorld_def initialWorld_def credentialsMissing_def)
  have step: "hasError w \<Longrightarrow> \<not> isRunning w \<Longrightarrow> retryCount w = 0 \<Longrightarrow> \<not> credentialsMissing w \<Longrightarrow>
    hasError (clickRetry examplePlatform httpError w) \<and>
    \<not> isRunning (clickRetry examplePlatform httpError w) \<and>
    retryCount (clickRetry examplePlatform httpError w) = 0 \<and>
    \<not> credentialsMissing (clickRetry examplePlatform httpError w) \<and>
    length (requests (clickRetry examplePlatform httpError w)) = Suc (length (requests w))" for w
    using handleRetry_resets_count [of w examplePlatform "''500''" None]
    by (simp add: clickRetry_def retryEnabled_def httpError_def)
  note s1 = step [OF a(1-4)]
  note s2 = step [OF s1 [THEN conjunct1] s1 [THEN conjunct2, THEN conjunct1]
      s1 [THEN conjunct2, THEN conjunct2, THEN conjunct1]
      s1 [THEN conjunct2, THEN conjunct2, THEN conjunct2, THEN conjunct1]]
  note s3 = step [OF s2 [THEN conjunct1] s2 [THEN conjunct2, THEN conjunct1]
      s2 [THEN conjunct2, THEN conjunct2, THEN conjunct1]
      s2 [THEN conjunct2, THEN conjunct2, THEN conjunct2, THEN conjunct1]]
  note s4 = step [OF s3 [THEN conjunct1] s3 [THEN conjunct2, THEN conjunct1]
      s3 [THEN conjunct2, THEN conjunct2, THEN conjunct1]
      s3 [THEN conjunct2, THEN conjunct2, THEN conjunct2, THEN conjunct1]]
  show ?thesis
    using a s1 s2 s3 s4 by (simp add: retryEnabled_def)
qed

subsection \<open>Dominance is a strict partial order\<close>

lemma atLeastAsGood_trans:
  "atLeastAsGood ob a b \<Longrightarrow> atLeastAsGood ob b c \<Longrightarrow> atLeastAsGood ob a c"
  by (auto simp: atLeastAsGood_def split: option.splits direction.splits)

lemma strictlyBetter_trans1:
  "strictlyBetter ob a b \<Longrightarrow> atLeastAsGood ob b c \<Longrightarrow> strictlyBetter ob a c"
  by (auto simp: atLeastAsGood_def strictlyBetter_def split: option.splits direction.splits)

lemma strictlyBetter_irrefl: "\<not> strictlyBetter ob a a"
  by (auto simp: strictlyBetter_def split: option.splits direction.splits)

lemma dominates_iff:
  "dominates objs a b \<longleftrightarrow>
     (\<forall>ob\<in>set objs. atLeastAsGood ob a b) \<and> (\<exists>ob\<in>set objs. strictlyBetter ob a b)"
  by (simp add: dominates_def list_all_iff list_ex_iff)

lemma dominates_trans:
  "dominates objs a b \<Longrightarrow> dominates objs b c \<Longrightarrow> dominates objs a c"
  unfolding dominates_iff
  by (meson atLeastAsGood_trans strictlyBetter_trans1)

lemma dominates_irrefl: "\<not> dominates objs a a"
  by (simp add: dominates_iff strictlyBetter_irrefl)

lemma atLeastAsGood_eligible:
  "atLeastAsGood ob a b \<longleftrightarrow>
     (\<exists>x y. properties a (property ob) = Some x \<and> properties b (property ob) = Some y \<and>
        (case direction ob of Maximize \<Rightarrow> y \<le> x | Minimize \<Rightarrow> x \<le> y))"
  by (auto simp: atLeastAsGood_def split: option.splits)

lemma strictlyBetter_eligible:
  "strictlyBetter ob a b \<longleftrightarrow>
     (\<exists>x y. properties a (property ob) = Some x \<and> properties b (property ob) = Some y \<and>
        (case direction ob of Maximize \<Rightarrow> y < x | Minimize \<Rightarrow> x < y))"
  by (auto simp: strictlyBetter_def split: option.splits)

subsection \<open>The front\<close>

lemma set_front:
  "set (fst (computeFront cs objs)) =
     {c \<in> set cs. eligible objs c \<and> \<not> (\<exists>d\<in>set cs. eligible objs d \<and> dominates objs d c)}"
  by (auto simp: computeFront_def Let_def list_ex_iff)

lemma dominated_by_front:
  assumes "c \<in> set cs" and "eligible objs c" and "c \<notin> set (fst (computeFront cs objs))"
  shows "\<exists>f\<in>set (fst (computeFront cs objs)). dominates objs f c"
  using assms
proof (induction "card {d \<in> set cs. eligible objs d \<and> dominates objs d c}"
    arbitrary: c rule: less_induct)
  case less
  let ?D = "\<lambda>c. {d \<in> set cs. eligible objs d \<and> dominates objs d c}"
  from less.prems obtain d where d: "d \<in> set cs" "eligible objs d" "dominates objs d c"
    by (auto simp: set_front)
  show ?case
  proof (cases "d \<in> set (fst (computeFront cs objs))")
    case True
    with d(3) show ?thesis by blast
  next
    case False
    have sub: "?D d \<subseteq> ?D c"
      using d(3) by (auto intro: dominates_trans)
    have "d \<in> ?D c" "d \<notin> ?D d"
      using d by (auto simp: dominates_irrefl)
    then have "?D d \<subset> ?D c"
      using sub by blast
    then have "card (?D d) < card (?D c)"
      by (intro psubset_card_mono) auto
    from less.hyps [OF this d(1,2) False]
    obtain f where "f \<in> set (fst (computeFront cs objs))" "dominates objs f d"
      by blast
    with d(3) show ?thesis
      by (blast intro: dominates_trans)
  qed
qed

text \<open>
  Claim C2 (Pareto front correctness). For every list of candidates and every list of
  objectives with their directions: a candidate is in the computed front if and only if
  it is an eligible candidate that no eligible candidate dominates; \<open>a\<close> dominates \<open>b\<close>
  if and only if it is at least as good on every objective and strictly better on at
  least one, where on values \<open>x\<close> of \<open>a\<close> and \<open>y\<close> of \<open>b\<close> at least as good is \<open>y \<le> x\<close>
  for Maximize and \<open>x \<le> y\<close> for Minimize, and strictly better the strict comparison. So
  no front member is dominated by an eligible candidate, and every eligible candidate
  outside the front is dominated by a member of the front.
\<close>

theorem C2_front_correct:
  "(\<forall>c. c \<in> set (fst (computeFront cs objs)) \<longleftrightarrow>
        c \<in> set cs \<and> eligible objs c \<and>
        \<not> (\<exists>d\<in>set cs. eligible objs d \<and> dominates objs d c))
   \<and> (\<forall>a b. dominates objs a b \<longleftrightarrow>
        (\<forall>ob\<in>set objs. atLeastAsGood ob a b) \<and> (\<exists>ob\<in>set objs. strictlyBetter ob a b))
   \<and> (\<forall>ob a b x y. properties a (property ob) = Some x \<longrightarrow> properties b (property ob) = Some y \<longrightarrow>
        (atLeastAsGood ob a b \<longleftrightarrow> (if direction ob = Maximize then y \<le> x else x \<le> y)) \<and>
        (strictlyBetter ob a b \<longleftrightarrow> (if direction ob = Maximize then y < x else x < y)))
   \<and> (\<forall>f\<in>set (fst (computeFront cs objs)). \<forall>d\<in>set cs.
        eligible objs d \<longrightarrow> \<not> dominates objs d f)
   \<and> (\<forall>c\<in>set cs. eligible objs c \<longrightarrow> c \<notin> set (fst (computeFront cs objs)) \<longrightarrow>
        (\<exists>f\<in>set (fst (computeFront cs objs)). dominates objs f c))"
proof -
  have a: "\<forall>c. c \<in> set (fst (computeFront cs objs)) \<longleftrightarrow>
        c \<in> set cs \<and> eligible objs c \<and>
        \<not> (\<exists>d\<in>set cs. eligible objs d \<and> dominates objs d c)"
    by (simp add: set_front)
  have b: "\<forall>ob a b x y. properties a (property ob) = Some x \<longrightarrow> properties b (property ob) = Some y \<longrightarrow>
        (atLeastAsGood ob a b \<longleftrightarrow> (if direction ob = Maximize then y \<le> x else x \<le> y)) \<and>
        (strictlyBetter ob a b \<longleftrightarrow> (if direction ob = Maximize then y < x else x < y))"
    by (auto simp: atLeastAsGood_def strictlyBetter_def split: direction.splits)
  have c: "\<forall>f\<in>set (fst (computeFront cs objs)). \<forall>d\<in>set cs.
        eligible objs d \<longrightarrow> \<not> dominates objs d f"
    using a by blast
  show ?thesis
    using a b c dominates_iff dominated_by_front by blast
qed


lemmas scenario_defs =
  candA_def candB_def candC_def exampleObjectives_def eligible_def dominates_def
  atLeastAsGood_def strictlyBetter_def

lemma scenario_eligible:
  "eligible exampleObjectives candA" "eligible exampleObjectives candB"
  "eligible exampleObjectives candC"
  by (simp_all add: scenario_defs del: not_None_eq)

lemma scenario_dominates:
  "dominates exampleObjectives candA candC" "dominates exampleObjectives candB candC"
  "\<not> dominates exampleObjectives candA candB" "\<not> dominates exampleObjectives candB candA"
  "\<not> dominates exampleObjectives candC candA" "\<not> dominates exampleObjectives candC candB"
  by (simp_all add: scenario_defs)

lemma scenario_distinct: "candC \<noteq> candA" "candC \<noteq> candB" "candA \<noteq> candB"
  by (simp_all add: candA_def candB_def candC_def)

lemma scenario_front:
  "computeFront [candA, candB, candC] exampleObjectives = ([candA, candB], Some candA)"
  "computeFront [candC, candB, candA] exampleObjectives = ([candB, candA], Some candA)"
  by (simp_all add: computeFront_def Let_def scenario_eligible scenario_dominates dominates_irrefl)
     (simp_all add: candA_def candB_def)

theorem C2_front_correct_witness:
  "fst (computeFront [candA, candB, candC] exampleObjectives) = [candA, candB]
   \<and> eligible exampleObjectives candC
   \<and> dominates exampleObjectives candA candC
   \<and> dominates exampleObjectives candB candC
   \<and> \<not> dominates exampleObjectives candA candB
   \<and> \<not> dominates exampleObjectives candB candA
   \<and> (\<exists>f\<in>set (fst (computeFront [candA, candB, candC] exampleObjectives)).
        dominates exampleObjectives f candC)"
proof -
  note t = C2_front_correct [of "[candA, candB, candC]" exampleObjectives,
      THEN conjunct2, THEN conjunct2, THEN conjunct2, THEN conjunct2]
  have mem: "candC \<in> set [candA, candB, candC]"
    by simp
  have out: "candC \<notin> set (fst (computeFront [candA, candB, candC] exampleObjectives))"
    by (simp add: scenario_front scenario_distinct)
  have "\<exists>f\<in>set (fst (computeFront [candA, candB, candC] exampleObjectives)).
        dominates exampleObjectives f candC"
    using t mem scenario_eligible(3) out by blast
  then show ?thesis
    by (simp add: scenario_front scenario_eligible scenario_dominates)
qed

subsection \<open>The best candidate\<close>

lemma best_None: "best xs = None \<longleftrightarrow> xs = []"
  by (induction xs) (auto split: option.splits)

lemma best_Some:
  "best xs = Some b \<Longrightarrow> b \<in> set xs \<and> (\<forall>x\<in>set xs. cand_id b \<le> cand_id x)"
proof (induction xs arbitrary: b)
  case Nil
  then show ?case by simp
next
  case (Cons c cs)
  show ?case
  proof (cases "best cs")
    case None
    then have "cs = []" by (simp add: best_None)
    with Cons.prems show ?thesis by simp
  next
    case (Some d)
    note ih = Cons.IH [OF Some]
    show ?thesis
    proof (cases "cand_id c \<le> cand_id d")
      case True
      with Cons.prems Some have "b = c" by simp
      with True ih show ?thesis by auto
    next
      case False
      with Cons.prems Some have "b = d" by simp
      with False ih show ?thesis by auto
    qed
  qed
qed

lemma best_id_set:
  assumes "set xs = set ys"
  shows "map_option cand_id (best xs) = map_option cand_id (best ys)"
proof (cases "best xs")
  case None
  then have "xs = []" by (simp add: best_None)
  with assms have "ys = []" by simp
  with None show ?thesis by simp
next
  case (Some b)
  then have "xs \<noteq> []" by auto
  with assms have "ys \<noteq> []" by auto
  then obtain b' where b': "best ys = Some b'"
    using best_None [of ys] by (cases "best ys") auto
  have "cand_id b \<le> cand_id b'" "cand_id b' \<le> cand_id b"
    using best_Some [OF Some] best_Some [OF b'] assms by auto
  then show ?thesis
    using Some b' by simp
qed

lemma best_set:
  assumes "set xs = set ys" and "inj_on cand_id (set xs)"
  shows "best xs = best ys"
proof (cases "best xs")
  case None
  with best_id_set [OF assms(1)] show ?thesis by simp
next
  case (Some b)
  with best_id_set [OF assms(1)] obtain b' where b': "best ys = Some b'" "cand_id b' = cand_id b"
    by (cases "best ys") auto
  have "b \<in> set xs" "b' \<in> set xs"
    using best_Some [OF Some] best_Some [OF b'(1)] assms(1) by auto
  with assms(2) b'(2) have "b' = b"
    by (auto dest: inj_onD)
  with Some b'(1) show ?thesis by simp
qed

lemma snd_computeFront: "snd (computeFront cs objs) = best (fst (computeFront cs objs))"
  by (simp add: computeFront_def Let_def)

text \<open>
  Claim C3 (determinism and tie-break). \<^verbatim>\<open>computeFront\<close> is a function, so two runs on the
  same input agree. On a permutation of the candidates it returns the same set of front
  members and a best candidate with the same \<^verbatim>\<open>id\<close>, and the same best candidate when
  the ids of the candidates are distinct. There is no best candidate exactly when the
  front is empty; otherwise it is a member of the front whose \<^verbatim>\<open>id\<close> is smallest in the
  lexicographic order.
\<close>

theorem C3_deterministic:
  assumes "mset cs' = mset cs"
  shows "set (fst (computeFront cs' objs)) = set (fst (computeFront cs objs))
       \<and> map_option cand_id (snd (computeFront cs' objs)) =
           map_option cand_id (snd (computeFront cs objs))
       \<and> (inj_on cand_id (set cs) \<longrightarrow> snd (computeFront cs' objs) = snd (computeFront cs objs))
       \<and> (snd (computeFront cs objs) = None \<longleftrightarrow> fst (computeFront cs objs) = [])
       \<and> (\<forall>b. snd (computeFront cs objs) = Some b \<longrightarrow>
             b \<in> set (fst (computeFront cs objs)) \<and>
             (\<forall>f\<in>set (fst (computeFront cs objs)). cand_id b \<le> cand_id f))"
proof -
  have "set cs' = set cs"
    using assms by (rule mset_eq_setD)
  then have fr: "set (fst (computeFront cs' objs)) = set (fst (computeFront cs objs))"
    by (simp add: set_front)
  have sub: "set (fst (computeFront cs' objs)) \<subseteq> set cs"
    using fr by (auto simp: set_front)
  have inj: "snd (computeFront cs' objs) = snd (computeFront cs objs)" if "inj_on cand_id (set cs)"
    unfolding snd_computeFront
    by (rule best_set [OF fr]) (rule inj_on_subset [OF that sub])
  show ?thesis
    using fr inj best_id_set [OF fr] best_Some [of "fst (computeFront cs objs)"]
    by (simp add: snd_computeFront best_None)
qed

theorem C3_deterministic_witness:
  "mset [candC, candB, candA] = mset [candA, candB, candC]
   \<and> set (fst (computeFront [candC, candB, candA] exampleObjectives)) = {candA, candB}
   \<and> snd (computeFront [candC, candB, candA] exampleObjectives) = Some candA
   \<and> snd (computeFront [candA, candB, candC] exampleObjectives) = Some candA"
proof -
  have m: "mset [candC, candB, candA] = mset [candA, candB, candC]"
    by (simp add: add.commute add.left_commute)
  have i: "inj_on cand_id (set [candA, candB, candC])"
    by (simp add: candA_def candB_def candC_def)
  show ?thesis
    using C3_deterministic [OF m, of exampleObjectives] i m
    by (simp add: scenario_front insert_commute)
qed

subsection \<open>What one event does to the state\<close>

lemma runningWorld_eq:
  "runningWorld =
     readyWorld\<lparr>isRunning := True,
       requests := [\<lparr>url = ''http://localhost:8000/discover'', goal = prompt readyWorld,
                     req_openaiApiKey = [], req_googleApiKey = ''AI-key'',
                     req_mpApiKey = ''mp-key''\<rparr>]\<rparr>"
  by (simp add: runningWorld_def handleDiscovery_def credentialsMissing_def
      readyWorld_def initialWorld_def fetch_def resetSession_def examplePlatform_def
      apiBase_def)

lemma deliver_throws:
  "nullish data \<Longrightarrow>
   deliver env data w = parseFailed env TypeError (w\<lparr>delivered := delivered w @ [data]\<rparr>)"
  by (simp add: deliver_def handleStreamData_def)

lemma get_nullish: "nullish data \<Longrightarrow> get data k = JUndefined"
  by (cases data) simp_all

lemmas deliver_defs =
  deliver_def handleStreamData_def Let_def setAgents_def addLog_def parseFailed_def

lemma isRunning_deliver_other:
  "\<not> truthy (get data ''final_candidate'') \<Longrightarrow> isRunning (deliver env data w) = isRunning w"
  by (cases "nullish data") (simp_all add: deliver_defs split: option.splits)

lemma finalCandidate_deliver_other:
  "\<not> truthy (get data ''final_candidate'') \<Longrightarrow>
   finalCandidate (deliver env data w) = finalCandidate w"
  by (cases "nullish data") (simp_all add: deliver_defs split: option.splits)

lemma truthy_not_nullish: "truthy (get data k) \<Longrightarrow> \<not> nullish data"
  by (cases data) simp_all

lemma deliver_terminal:
  assumes "truthy (get data ''final_candidate'')"
    and "truthy (get data ''log'') \<longrightarrow> toString (get data ''log'') = Some l"
    and "truthy (get data ''agent'') \<and> truthy (get data ''log'') \<longrightarrow>
           toString (get data ''agent'') = Some a"
  shows "finalCandidate (deliver env data w) = get data ''final_candidate''"
    and "\<not> isRunning (deliver env data w)"
    and "map message (logs (deliver env data w)) =
          map message (logs w)
          @ (if truthy (get data ''agent'') \<and> truthy (get data ''log'') then [a @ '': '' @ l] else [])
          @ (if truthy (get data ''log'') then [''System: '' @ l] else [])"
  using assms truthy_not_nullish [OF assms(1)]
  by (simp_all add: deliver_defs agentLine_def systemLine_def)

text \<open>
  Claim C7 as stated fails at three events that contain a \<^verbatim>\<open>final_candidate\<close> field. One
  carries \<^verbatim>\<open>null\<close> there: the running session stays running and its log line is not
  appended. One is a terminal event whose \<^verbatim>\<open>log\<close> is the empty string: no log line is
  appended. One has for its \<^verbatim>\<open>log\<close> an object with a property \<^verbatim>\<open>toString\<close>: the template
  literal throws, the session stays running, and the log gets the line of the parse
  error instead.
\<close>

theorem C7_counterexample:
  "hasField nullFinalEvent ''final_candidate''
   \<and> isRunning runningWorld
   \<and> isRunning (deliver examplePlatform nullFinalEvent runningWorld)
   \<and> logs (deliver examplePlatform nullFinalEvent runningWorld) = logs runningWorld
   \<and> hasField silentFinalEvent ''final_candidate''
   \<and> hasField silentFinalEvent ''log''
   \<and> logs (deliver examplePlatform silentFinalEvent runningWorld) = logs runningWorld
   \<and> hasField unprintableFinalEvent ''final_candidate''
   \<and> isRunning (deliver examplePlatform unprintableFinalEvent runningWorld)
   \<and> map message (logs (deliver examplePlatform unprintableFinalEvent runningWorld)) =
       [''System: Error parsing server response.'']"
  by (simp add: nullFinalEvent_def silentFinalEvent_def unprintableFinalEvent_def
      runningWorld_eq readyWorld_def initialWorld_def deliver_defs systemLine_def)

text \<open>
  Claim C7 (terminal event), amended. \<open>deliver\<close> is the call of \<^verbatim>\<open>handleStreamData\<close> as
  \<^verbatim>\<open>processStream\<close> makes it. Take a decoded event whose \<^verbatim>\<open>final_candidate\<close> field is truthy
  (every JSON object is) and whose \<^verbatim>\<open>log\<close> field, when truthy, has the string conversion
  \<open>l\<close>, as has its \<^verbatim>\<open>agent\<close> field, \<open>a\<close>, when both are truthy (a string is its own
  conversion). The client records the value of \<^verbatim>\<open>final_candidate\<close> as the final candidate
  and sets \<^verbatim>\<open>isRunning\<close> to false; it appends the log line \<^verbatim>\<open>System: \<close> followed by \<open>l\<close>
  exactly when \<^verbatim>\<open>log\<close> is truthy (a non-empty string is), after the line of the agent
  when the event has a truthy \<^verbatim>\<open>agent\<close> field too. An event whose \<^verbatim>\<open>final_candidate\<close>
  field is absent or falsy leaves \<^verbatim>\<open>isRunning\<close> and the final candidate as they are.
\<close>

theorem C7_terminal_event:
  "(truthy (get data ''final_candidate'')
      \<and> (truthy (get data ''log'') \<longrightarrow> toString (get data ''log'') = Some l)
      \<and> (truthy (get data ''agent'') \<and> truthy (get data ''log'') \<longrightarrow>
            toString (get data ''agent'') = Some a) \<longrightarrow>
      finalCandidate (deliver env data w) = get data ''final_candidate''
      \<and> \<not> isRunning (deliver env data w)
      \<and> map message (logs (deliver env data w)) =
          map message (logs w)
          @ (if truthy (get data ''agent'') \<and> truthy (get data ''log'') then [a @ '': '' @ l] else [])
          @ (if truthy (get data ''log'') then [''System: '' @ l] else []))
   \<and> (\<not> truthy (get data ''final_candidate'') \<longrightarrow>
        isRunning (deliver env data w) = isRunning w
        \<and> finalCandidate (deliver env data w) = finalCandidate w)"
  using deliver_terminal [of data l a env w]
  by (simp add: isRunning_deliver_other finalCandidate_deliver_other)

theorem C7_terminal_event_witness:
  "truthy (get finalEvent ''final_candidate'')
   \<and> toString (get finalEvent ''log'') = Some ''Discovery complete''
   \<and> finalCandidate (deliver examplePlatform finalEvent runningWorld) =
       JObject [(''formula'', JString ''TiO2''),
                (''properties'', JObject [(''band_gap'', JNumber ''2.1'')])]
   \<and> isRunning (deliver examplePlatform finalEvent runningWorld) = False
   \<and> map message (logs (deliver examplePlatform finalEvent runningWorld)) =
       [''System: Discovery complete'']
   \<and> truthy (get statusEvent ''final_candidate'') = False
   \<and> isRunning (deliver examplePlatform statusEvent runningWorld) = True"
  using C7_terminal_event [of finalEvent "''Discovery complete''" "[]" examplePlatform runningWorld]
        C7_terminal_event [of statusEvent "[]" "[]" examplePlatform runningWorld]
  by (simp add: finalEvent_def statusEvent_def runningWorld_eq readyWorld_def initialWorld_def)

subsection \<open>The agents\<close>

lemma agents_deliver:
  "agents (deliver env data w) =
     (if truthy (get data ''agent'')
      then map (\<lambda>a. if JString (name a) = get data ''agent''
                     then a\<lparr>status := get data ''status''\<rparr> else a) (agents w)
      else agents w)"
  by (cases "nullish data") (simp_all add: deliver_defs get_nullish split: option.splits)

text \<open>
  Claim C8 (frame property of status updates). \<open>deliver\<close> is the call of
  \<^verbatim>\<open>handleStreamData\<close> as \<^verbatim>\<open>processStream\<close> makes it. For every event, the list of agents
  keeps its length, and every entry keeps its name, icon and color; an entry whose name
  is not the event's \<^verbatim>\<open>agent\<close> field is unchanged, and an entry that changes differs from
  the old one in its status only, which is the event's \<^verbatim>\<open>status\<close>. An event naming no
  agent of the list leaves the list unchanged. With distinct names, as the five agents
  have, at most one entry changes.
\<close>

theorem C8_agent_frame:
  "length (agents (deliver env data w)) = length (agents w)
   \<and> (\<forall>i<length (agents w).
        name (agents (deliver env data w) ! i) = name (agents w ! i)
        \<and> icon (agents (deliver env data w) ! i) = icon (agents w ! i)
        \<and> color (agents (deliver env data w) ! i) = color (agents w ! i)
        \<and> (JString (name (agents w ! i)) \<noteq> get data ''agent'' \<longrightarrow>
             agents (deliver env data w) ! i = agents w ! i)
        \<and> (agents (deliver env data w) ! i \<noteq> agents w ! i \<longrightarrow>
             agents (deliver env data w) ! i = (agents w ! i)\<lparr>status := get data ''status''\<rparr>))
   \<and> ((\<forall>a\<in>set (agents w). JString (name a) \<noteq> get data ''agent'') \<longrightarrow>
        agents (deliver env data w) = agents w)
   \<and> (distinct (map name (agents w)) \<longrightarrow>
        (\<forall>i<length (agents w). \<forall>j<length (agents w).
           agents (deliver env data w) ! i \<noteq> agents w ! i \<longrightarrow>
           agents (deliver env data w) ! j \<noteq> agents w ! j \<longrightarrow> i = j))"
proof -
  let ?f = "\<lambda>a. if JString (name a) = get data ''agent''
                 then a\<lparr>status := get data ''status''\<rparr> else a"
  have len: "length (agents (deliver env data w)) = length (agents w)"
    by (simp add: agents_deliver)
  have nth: "agents (deliver env data w) ! i =
      (if truthy (get data ''agent'') then ?f (agents w ! i) else agents w ! i)"
    if "i < length (agents w)" for i
    using that by (simp add: agents_deliver)
  have changed: "JString (name (agents w ! i)) = get data ''agent''"
    if "i < length (agents w)" "agents (deliver env data w) ! i \<noteq> agents w ! i" for i
    using that nth [of i] by (auto split: if_splits)
  have frame: "\<forall>i<length (agents w).
        name (agents (deliver env data w) ! i) = name (agents w ! i)
        \<and> icon (agents (deliver env data w) ! i) = icon (agents w ! i)
        \<and> color (agents (deliver env data w) ! i) = color (agents w ! i)
        \<and> (JString (name (agents w ! i)) \<noteq> get data ''agent'' \<longrightarrow>
             agents (deliver env data w) ! i = agents w ! i)
        \<and> (agents (deliver env data w) ! i \<noteq> agents w ! i \<longrightarrow>
             agents (deliver env data w) ! i = (agents w ! i)\<lparr>status := get data ''status''\<rparr>)"
    by (simp add: nth)
  have absent: "(\<forall>a\<in>set (agents w). JString (name a) \<noteq> get data ''agent'') \<longrightarrow>
        agents (deliver env data w) = agents w"
    by (auto simp: agents_deliver intro!: map_idI)
  have single: "i = j"
    if "distinct (map name (agents w))" "i < length (agents w)" "j < length (agents w)"
       "agents (deliver env data w) ! i \<noteq> agents w ! i"
       "agents (deliver env data w) ! j \<noteq> agents w ! j" for i j
  proof -
    have "JString (name (agents w ! i)) = JString (name (agents w ! j))"
      using changed [OF that(2,4)] changed [OF that(3,5)] by simp
    then have "name (agents w ! i) = name (agents w ! j)"
      by simp
    then show ?thesis
      using that(1,2,3) unfolding distinct_conv_nth by auto
  qed
  show ?thesis
    using len frame absent single by blast
qed

theorem C8_agent_frame_witness:
  "agents (deliver examplePlatform statusEvent runningWorld) =
     [\<lparr>icon = IconBrain, name = ''Epimetheus'', status = JString ''idle'', color = ''blue''\<rparr>,
      \<lparr>icon = IconBeaker, name = ''Athena'', status = JString ''thinking'', color = ''purple''\<rparr>,
      \<lparr>icon = IconZap, name = ''Hermes'', status = JString ''idle'', color = ''yellow''\<rparr>,
      \<lparr>icon = IconClipboardList, name = ''Hephaestus'', status = JString ''idle'', color = ''green''\<rparr>,
      \<lparr>icon = IconShieldCheck, name = ''Cassandra'', status = JString ''idle'', color = ''red''\<rparr>]
   \<and> agents (deliver examplePlatform
        (JObject [(''agent'', JString ''Zeus''), (''status'', JString ''error'')]) runningWorld)
     = agents runningWorld"
proof -
  have ag: "agents runningWorld = initialAgents"
    by (simp add: runningWorld_eq readyWorld_def initialWorld_def)
  have len: "length (agents runningWorld) = 5"
    by (simp add: ag initialAgents_def)
  have "\<forall>a\<in>set (agents runningWorld). JString (name a) \<noteq>
          get (JObject [(''agent'', JString ''Zeus''), (''status'', JString ''error'')]) ''agent''"
    by (simp add: ag initialAgents_def)
  then have zeus: "agents (deliver examplePlatform
        (JObject [(''agent'', JString ''Zeus''), (''status'', JString ''error'')]) runningWorld)
     = agents runningWorld"
    using C8_agent_frame [of examplePlatform
        "JObject [(''agent'', JString ''Zeus''), (''status'', JString ''error'')]" runningWorld]
    by blast
  have "agents (deliver examplePlatform statusEvent runningWorld) =
        map (\<lambda>a. if JString (name a) = get statusEvent ''agent''
                   then a\<lparr>status := get statusEvent ''status''\<rparr> else a) (agents runningWorld)"
    by (simp add: agents_deliver statusEvent_def)
  then show ?thesis
    using zeus by (simp add: ag initialAgents_def statusEvent_def)
qed

subsection \<open>A stream that outlives its session\<close>

lemma processStream_resume:
  "processStream env (map Value (cs1 @ cs2)) b w =
     processStream env (map Value cs2) (bufferAfter cs1 b) (processStream env (map Value cs1) b w)"
  by (induction cs1 arbitrary: b w) (simp_all add: Let_def)

lemma processStream_encoded:
  assumes "\<forall>e\<in>set es. JSON_parse env (ser e) = Some e \<and> LF \<notin> set (ser e)"
  shows "processStream env [Value (encode ser es)] [] w = foldl (\<lambda>w e. deliver env e w) w es"
    and "bufferAfter [encode ser es] [] = []"
proof -
  have nl: "\<forall>e\<in>set es. LF \<notin> set (ser e)" and ps: "\<forall>e\<in>set es. JSON_parse env (ser e) = Some e"
    using assms by auto
  show "processStream env [Value (encode ser es)] [] w = foldl (\<lambda>w e. deliver env e w) w es"
    using processStream_values [of "[]" env "[encode ser es]" w]
    by (simp add: completeLines_encode [OF nl] foldl_encoded [OF ps])
  show "bufferAfter [encode ser es] [] = []"
    using split_encode [OF nl, of "[]"] by (simp add: pop_def)
qed

lemma example_parse_one:
  "\<forall>e\<in>set [finalEvent]. JSON_parse examplePlatform (stringify e) = Some e \<and> LF \<notin> set (stringify e)"
  "\<forall>e\<in>set [statusEvent]. JSON_parse examplePlatform (stringify e) = Some e \<and> LF \<notin> set (stringify e)"
  using example_parse by (simp_all add: exampleEvents_def)

lemma endedWorld_eq:
  "endedWorld = deliver examplePlatform finalEvent runningWorld"
proof -
  have "endedWorld =
        processStream examplePlatform [Value (encode stringify [finalEvent])] [] runningWorld"
    by (simp add: endedWorld_def runningWorld_def handleDiscovery_def credentialsMissing_def
        readyWorld_def initialWorld_def del: processStream.simps)
  then show ?thesis
    by (simp only: processStream_encoded(1) [OF example_parse_one(1)] foldl.simps)
qed

lemma lateWorld_eq:
  "lateWorld = deliver examplePlatform statusEvent restartedWorld"
  by (simp only: lateWorld_def processStream_encoded(2) [OF example_parse_one(1)]
      processStream_encoded(1) [OF example_parse_one(2)] foldl.simps)

text \<open>
  Claim C10 as stated fails at a stream that outlives its session. The first session
  receives its final event, which ends it (\<^verbatim>\<open>isRunning\<close> is false, so the start button is
  enabled) while its stream is still open. A new session is started: the logs are empty
  and the agents idle. Then the stream of the first session delivers a status event: the
  loop of the first session, which nothing has cancelled, applies it to the state of the
  new session, whose log and agents now show an event of the previous session.
\<close>

theorem C10_counterexample:
  "isRunning endedWorld = False
   \<and> mpApiKey endedWorld = ''mp-key'' \<and> googleApiKey endedWorld = ''AI-key''
   \<and> logs restartedWorld = []
   \<and> agents restartedWorld = initialAgents
   \<and> delivered lateWorld = [finalEvent, statusEvent]
   \<and> map message (logs lateWorld) = [''Athena: Planning the query'']
   \<and> map status (agents lateWorld) =
       [JString ''idle'', JString ''thinking'', JString ''idle'', JString ''idle'', JString ''idle'']"
proof -
  have ended: "isRunning endedWorld = False" "mpApiKey endedWorld = ''mp-key''"
    "googleApiKey endedWorld = ''AI-key''" "delivered endedWorld = [finalEvent]"
    "requests endedWorld = requests runningWorld"
    by (simp_all add: endedWorld_eq finalEvent_def runningWorld_eq readyWorld_def initialWorld_def
        deliver_defs systemLine_def)
  have restarted: "restartedWorld =
      endedWorld\<lparr>isRunning := True, logs := [], chartData := JArray [], finalCandidate := JNull,
        agents := initialAgents, objectives := [], hasError := False, retryCount := 0,
        requests := requests restartedWorld\<rparr>"
    by (simp add: restartedWorld_def handleDiscovery_def credentialsMissing_def ended
        fetch_def resetSession_def)
  have r: "logs restartedWorld = []" "agents restartedWorld = initialAgents"
    "delivered restartedWorld = [finalEvent]"
    by (subst restarted, simp add: ended)+
  have late: "delivered lateWorld = [finalEvent, statusEvent]"
    "map message (logs lateWorld) = [''Athena: Planning the query'']"
    "map status (agents lateWorld) =
       [JString ''idle'', JString ''thinking'', JString ''idle'', JString ''idle'', JString ''idle'']"
    by (simp_all add: lateWorld_eq delivered_deliver agents_deliver r statusEvent_def
        initialAgents_def deliver_defs agentLine_def)
  show ?thesis
    using ended r late by simp
qed

end
